theory Spec2Isabelle
  imports Main "HOL-Library.Word"
begin

section \<open>Severity model (log\_severity.h)\<close>

text \<open>
  \<^verbatim>\<open>enum class LogSeverity : int\<close> has \<^verbatim>\<open>int\<close> as its underlying type, so every
  32-bit value is a value of the enumeration (\<^verbatim>\<open>static_cast\<close> from \<^verbatim>\<open>int\<close> never fails).
  A severity is therefore a 32-bit word, compared as a signed number, and the four
  enumerators are the words 0..3.
\<close>

type_synonym LogSeverity = "32 word"

definition kInfo :: LogSeverity where "kInfo = 0"
definition kWarning :: LogSeverity where "kWarning = 1"
definition kError :: LogSeverity where "kError = 2"
definition kFatal :: LogSeverity where "kFatal = 3"

text \<open>\<^verbatim>\<open>LogSeverities()\<close>: the standard values, least to most severe.\<close>

definition LogSeverities :: "LogSeverity list" where
  "LogSeverities = [kInfo, kWarning, kError, kFatal]"

text \<open>\<^verbatim>\<open>LogSeverityName\<close>: the chain of conditional expressions of the source.\<close>

definition LogSeverityName :: "LogSeverity \<Rightarrow> string" where
  "LogSeverityName s =
     (if s = kInfo then ''INFO''
      else if s = kWarning then ''WARNING''
      else if s = kError then ''ERROR''
      else if s = kFatal then ''FATAL'' else ''UNKNOWN'')"

text \<open>\<^verbatim>\<open>NormalizeLogSeverity(LogSeverity)\<close>; \<open><s\<close> is the signed order of \<^verbatim>\<open>int\<close>.\<close>

definition NormalizeLogSeverity :: "LogSeverity \<Rightarrow> LogSeverity" where
  "NormalizeLogSeverity s =
     (if s <s kInfo then kInfo
      else if kFatal <s s then kError else s)"

text \<open>\<^verbatim>\<open>static_cast<LogSeverity>(int)\<close> keeps the value.\<close>

definition static_cast_LogSeverity :: "32 word \<Rightarrow> LogSeverity" where
  "static_cast_LogSeverity s = s"

text \<open>The overload \<^verbatim>\<open>NormalizeLogSeverity(int)\<close>.\<close>

definition NormalizeLogSeverity_int :: "32 word \<Rightarrow> LogSeverity" where
  "NormalizeLogSeverity_int s = NormalizeLogSeverity (static_cast_LogSeverity s)"

section \<open>Build configuration\<close>

text \<open>
  The preprocessor symbols the headers test. \<open>NDEBUG\<close> is whether the symbol is defined;
  \<open>STRIP_LOG\<close> is \<open>None\<close> when the symbol is not defined and its value otherwise.
\<close>

record build_config =
  NDEBUG :: bool
  STRIP_LOG :: "int option"

text \<open>
  Modelled from the spec: the definition of \<^verbatim>\<open>kLogDebugFatal\<close>. The header only declares it
  (\<^verbatim>\<open>extern const\<close>); the translation unit that defines it is not among the sources. Its
  argument is the build configuration of that one defining translation unit: Fatal in a
  debug configuration, Error otherwise.
\<close>

definition kLogDebugFatal :: "build_config \<Rightarrow> LogSeverity" where
  "kLogDebugFatal lib = (if NDEBUG lib then kError else kFatal)"

section \<open>Basename (raw\_logging.h)\<close>

datatype error = OutOfBounds

text \<open>
  A \<^verbatim>\<open>const char*\<close> naming a string of \<open>length fname\<close> characters followed by its
  terminating NUL: indices \<open>0 .. length fname\<close> can be read, any other read is outside
  the array.
\<close>

definition char_at :: "string \<Rightarrow> int \<Rightarrow> error + char" where
  "char_at fname i =
     (if 0 \<le> i \<and> i < int (length fname) then Inr (fname ! nat i)
      else if i = int (length fname) then Inr (CHR 0x00)
      else Inl OutOfBounds)"

text \<open>The two path separators the source compares with: \<^verbatim>\<open>'/'\<close> and the backslash.\<close>

definition is_separator :: "char \<Rightarrow> bool" where
  "is_separator c = (c = CHR ''/'' \<or> c = CHR 0x5C)"

text \<open>
  \<^verbatim>\<open>Basename(fname, offset)\<close>. The result \<^verbatim>\<open>fname + offset\<close> is the string that starts
  \<open>offset\<close> characters into \<open>fname\<close>. \<^verbatim>\<open>||\<close> evaluates left to right, so
  \<^verbatim>\<open>fname[offset - 1]\<close> is read only when \<open>offset\<close> is not 0.
\<close>

function Basename :: "string \<Rightarrow> int \<Rightarrow> error + string" where
  "Basename fname offset =
     (if offset = 0 then Inr (drop (nat offset) fname)
      else (case char_at fname (offset - 1) of
              Inl e \<Rightarrow> Inl e
            | Inr c \<Rightarrow>
                if is_separator c then Inr (drop (nat offset) fname)
                else Basename fname (offset - 1)))"
  by pat_completeness auto
termination
proof (relation "measure (\<lambda>(fname, offset). nat offset)")
  show "wf (measure (\<lambda>(fname, offset). nat offset))" by simp
next
  fix fname :: string and offset :: int and c :: char
  assume nz: "offset \<noteq> 0" and rd: "char_at fname (offset - 1) = Inr c"
  from rd have "0 \<le> offset - 1"
    by (auto simp: char_at_def split: if_splits)
  then show "((fname, offset - 1), (fname, offset)) \<in> measure (\<lambda>(fname, offset). nat offset)"
    by simp
qed

declare Basename.simps [simp del]

section \<open>Raw logger and hook registry (raw\_logging.h)\<close>

subsection \<open>Hooks, process state and environment\<close>

text \<open>
  A hook is a function pointer. Two registrations name the same callback exactly when
  the pointers are equal, so a pointer is an address and the code behind it is looked up
  in the environment.
\<close>

type_synonym fnptr = nat

datatype arg = ArgStr string | ArgInt int

text \<open>
  \<^verbatim>\<open>LogPrefixHook\<close>: severity, file, line and the size of the buffer window; the hook
  returns whether the message is to be written, and the prefix it put at the front of
  the window (\<^verbatim>\<open>*buffer\<close> advanced and \<^verbatim>\<open>*buf_size\<close> reduced by its length).
\<close>

type_synonym LogPrefixHook = "LogSeverity \<Rightarrow> string \<Rightarrow> int \<Rightarrow> nat \<Rightarrow> bool \<times> string"

text \<open>
  \<^verbatim>\<open>AbortHook\<close>: file, line, the buffer and the offset of \<^verbatim>\<open>prefix_end\<close> in it. The hook
  returns nothing; it either returns to the logger or ends the process itself. Both
  kinds of hook are functions: a callback that runs forever is outside the model.
\<close>

datatype hook_exit = HookReturns | HookEndsProcess

type_synonym AbortHook = "string \<Rightarrow> int \<Rightarrow> string \<Rightarrow> nat \<Rightarrow> hook_exit"

datatype exit_cause = EndedByAbortHook | EndedByAbort

datatype event =
    RawLogCalled LogSeverity string int string "arg list"
  | PrefixHookCalled fnptr
  | StderrWrite string
  | AbortHookCalled fnptr

text \<open>
  The process: the two registry slots (\<open>None\<close> is an unset slot), what it has done so
  far, and whether and how it has ended.
\<close>

record process =
  log_prefix_hook :: "fnptr option"
  abort_hook :: "fnptr option"
  events :: "event list"
  terminated :: "exit_cause option"

definition initial_process :: process where
  "initial_process =
     \<lparr>log_prefix_hook = None, abort_hook = None, events = [], terminated = None\<rparr>"

text \<open>
  What the logger takes from outside this repository or leaves open: the build
  configuration of the translation unit that defines \<^verbatim>\<open>kLogDebugFatal\<close>, the code of the
  registered callbacks, the C library's formatter, the capacity of the output buffer,
  the prefix written when no prefix hook is registered, how many bytes of a buffer the
  operating system accepts on standard error, and the source location and text of the
  report of a conflicting registration.
\<close>

record environment =
  lib_config :: build_config
  prefix_hook_code :: "fnptr \<Rightarrow> LogPrefixHook"
  abort_hook_code :: "fnptr \<Rightarrow> AbortHook"
  vsnprintf :: "string \<Rightarrow> arg list \<Rightarrow> string"
  kLogBufSize :: nat
  default_prefix :: "LogSeverity \<Rightarrow> string \<Rightarrow> int \<Rightarrow> string"
  write_accepts :: "string \<Rightarrow> nat"
  conflict_site :: "string \<times> int \<times> string"

definition record_event :: "event \<Rightarrow> process \<Rightarrow> process" where
  "record_event e p = p\<lparr>events := events p @ [e]\<rparr>"

subsection \<open>Stderr writer and raw logger\<close>

text \<open>
  Modelled from the spec: the body of \<^verbatim>\<open>SafeWriteToStderr\<close>, which the header only
  declares. The bytes that reach standard error are a prefix of the buffer; a failed or
  short write is dropped silently and nothing is reported to the caller.
\<close>

definition SafeWriteToStderr :: "environment \<Rightarrow> string \<Rightarrow> nat \<Rightarrow> process \<Rightarrow> process" where
  "SafeWriteToStderr env s len p =
     record_event (StderrWrite (take (min len (write_accepts env s)) s)) p"

text \<open>Step 4 of the logger: the prefix hook, when one is registered.\<close>

definition call_prefix_hook ::
  "environment \<Rightarrow> LogSeverity \<Rightarrow> string \<Rightarrow> int \<Rightarrow> process \<Rightarrow> (bool \<times> string) \<times> process" where
  "call_prefix_hook env sev file line p =
     (case log_prefix_hook p of
        None \<Rightarrow> ((True, default_prefix env sev file line), p)
      | Some h \<Rightarrow>
          (prefix_hook_code env h sev file line (kLogBufSize env),
           record_event (PrefixHookCalled h) p))"

text \<open>
  Step 7 of the logger: the abort hook when one is registered, then the
  abnormal-termination primitive.
\<close>

definition fatal_exit ::
  "environment \<Rightarrow> string \<Rightarrow> int \<Rightarrow> string \<Rightarrow> nat \<Rightarrow> process \<Rightarrow> process" where
  "fatal_exit env file line buffer prefix_end p =
     (case abort_hook p of
        None \<Rightarrow> p\<lparr>terminated := Some EndedByAbort\<rparr>
      | Some a \<Rightarrow>
          (case abort_hook_code env a file line buffer prefix_end of
             HookReturns \<Rightarrow>
               (record_event (AbortHookCalled a) p)\<lparr>terminated := Some EndedByAbort\<rparr>
           | HookEndsProcess \<Rightarrow>
               (record_event (AbortHookCalled a) p)\<lparr>terminated := Some EndedByAbortHook\<rparr>))"

text \<open>
  Modelled from the spec: the body of \<^verbatim>\<open>RawLog\<close>, which the header only declares,
  following the seven steps of the dispatch algorithm. The file name it receives is the
  base name the \<^verbatim>\<open>XBSL_RAW_LOG\<close> macro computed (step 2). A process that has ended runs
  no code.
\<close>

definition RawLog ::
  "environment \<Rightarrow> LogSeverity \<Rightarrow> string \<Rightarrow> int \<Rightarrow> string \<Rightarrow> arg list \<Rightarrow> process \<Rightarrow> process" where
  "RawLog env severity file line format args p =
     (if terminated p \<noteq> None then p
      else
        let sev = NormalizeLogSeverity severity;
            p1 = record_event (RawLogCalled sev file line format args) p;
            rendered = vsnprintf env format args;
            ((emit, written), p2) = call_prefix_hook env sev file line p1;
            prefix = take (kLogBufSize env) written;
            buffer = prefix @ take (kLogBufSize env - length prefix) rendered;
            p3 = (if emit \<or> sev = kFatal
                  then SafeWriteToStderr env buffer (length buffer) p2 else p2)
        in if sev = kFatal then fatal_exit env file line buffer (length prefix) p3
           else p3)"

subsection \<open>Registration\<close>

text \<open>
  Modelled from the spec: the bodies of \<^verbatim>\<open>RegisterLogPrefixHook\<close> and
  \<^verbatim>\<open>RegisterAbortHook\<close>, which the header only declares. A slot is set by the first
  registration; the same value again changes nothing; a different value is reported
  through the Fatal path of the logger.
\<close>

definition report_conflict :: "environment \<Rightarrow> process \<Rightarrow> process" where
  "report_conflict env p =
     (case conflict_site env of
        (file, line, format) \<Rightarrow> RawLog env kFatal file line format [] p)"

definition RegisterLogPrefixHook :: "environment \<Rightarrow> fnptr \<Rightarrow> process \<Rightarrow> process" where
  "RegisterLogPrefixHook env fn p =
     (if terminated p \<noteq> None then p
      else (case log_prefix_hook p of
              None \<Rightarrow> p\<lparr>log_prefix_hook := Some fn\<rparr>
            | Some g \<Rightarrow> if g = fn then p else report_conflict env p))"

definition RegisterAbortHook :: "environment \<Rightarrow> fnptr \<Rightarrow> process \<Rightarrow> process" where
  "RegisterAbortHook env fn p =
     (if terminated p \<noteq> None then p
      else (case abort_hook p of
              None \<Rightarrow> p\<lparr>abort_hook := Some fn\<rparr>
            | Some g \<Rightarrow> if g = fn then p else report_conflict env p))"

text \<open>A process runs a sequence of calls of the facility.\<close>

datatype operation =
    DoRegisterLogPrefixHook fnptr
  | DoRegisterAbortHook fnptr
  | DoRawLog LogSeverity string int string "arg list"

fun step :: "environment \<Rightarrow> operation \<Rightarrow> process \<Rightarrow> process" where
  "step env (DoRegisterLogPrefixHook fn) p = RegisterLogPrefixHook env fn p"
| "step env (DoRegisterAbortHook fn) p = RegisterAbortHook env fn p"
| "step env (DoRawLog severity file line format args) p =
     RawLog env severity file line format args p"

fun run :: "environment \<Rightarrow> operation list \<Rightarrow> process \<Rightarrow> process" where
  "run env [] p = p"
| "run env (x # xs) p = run env xs (step env x p)"

subsection \<open>The macros\<close>

text \<open>
  The severity tokens \<^verbatim>\<open>XBSL_RAW_LOG\<close> pastes onto \<^verbatim>\<open>XBSL_RAW_LOGGING_INTERNAL_\<close>, and
  what each macro expands to.
\<close>

datatype severity_token = INFO | WARNING | ERROR | FATAL | DFATAL | LEVEL "32 word"

fun XBSL_RAW_LOGGING_INTERNAL :: "environment \<Rightarrow> severity_token \<Rightarrow> LogSeverity" where
  "XBSL_RAW_LOGGING_INTERNAL env INFO = kInfo"
| "XBSL_RAW_LOGGING_INTERNAL env WARNING = kWarning"
| "XBSL_RAW_LOGGING_INTERNAL env ERROR = kError"
| "XBSL_RAW_LOGGING_INTERNAL env FATAL = kFatal"
| "XBSL_RAW_LOGGING_INTERNAL env DFATAL = kLogDebugFatal (lib_config env)"
| "XBSL_RAW_LOGGING_INTERNAL env (LEVEL severity) = NormalizeLogSeverity_int severity"

text \<open>
  \<^verbatim>\<open>XBSL_RAW_LOG(severity, ...)\<close> in a translation unit built with \<open>cfg\<close>, at source
  location \<open>FILE\<close>, \<open>LINE\<close>. The first branch is the one taken under
  \<^verbatim>\<open>#if !defined(STRIP_LOG) || STRIP_LOG == 0\<close>. \<^verbatim>\<open>sizeof(__FILE__) - 1\<close> is the length of
  the file name.
\<close>

definition XBSL_RAW_LOG ::
  "environment \<Rightarrow> build_config \<Rightarrow> severity_token \<Rightarrow> string \<Rightarrow> int \<Rightarrow> string \<Rightarrow> arg list
     \<Rightarrow> process \<Rightarrow> error + process" where
  "XBSL_RAW_LOG env cfg severity FILE LINE format args p =
     (case Basename FILE (int (length FILE)) of
        Inl e \<Rightarrow> Inl e
      | Inr xbsl_raw_logging_internal_basename \<Rightarrow>
          if STRIP_LOG cfg = None \<or> STRIP_LOG cfg = Some 0 then
            Inr (RawLog env (XBSL_RAW_LOGGING_INTERNAL env severity)
                   xbsl_raw_logging_internal_basename LINE format args p)
          else if XBSL_RAW_LOGGING_INTERNAL env severity = kFatal then
            Inr (RawLog env kFatal xbsl_raw_logging_internal_basename LINE format args p)
          else Inr p)"

text \<open>
  Modelled from the spec: \<^verbatim>\<open>XBSL_PREDICT_FALSE\<close>, defined in a header that is not among
  the sources; a compile-time hint to the optimiser that leaves the value of its
  argument as it is.
\<close>

definition XBSL_PREDICT_FALSE :: "bool \<Rightarrow> bool" where
  "XBSL_PREDICT_FALSE x = x"

text \<open>
  \<^verbatim>\<open>XBSL_RAW_CHECK(condition, message)\<close>; \<open>condition_text\<close> is the stringified
  \<^verbatim>\<open>#condition\<close>. The macro substitutes \<^verbatim>\<open>message\<close> into the failing branch only.
\<close>

definition XBSL_RAW_CHECK ::
  "environment \<Rightarrow> build_config \<Rightarrow> bool \<Rightarrow> string \<Rightarrow> string \<Rightarrow> string \<Rightarrow> int
     \<Rightarrow> process \<Rightarrow> error + process" where
  "XBSL_RAW_CHECK env cfg condition condition_text message FILE LINE p =
     (if XBSL_PREDICT_FALSE (\<not> condition) then
        XBSL_RAW_LOG env cfg FATAL FILE LINE ''Check %s failed: %s''
          [ArgStr condition_text, ArgStr message] p
      else Inr p)"

section \<open>A concrete process for evaluation\<close>

text \<open>
  A formatter that substitutes string arguments for \<^verbatim>\<open>%s\<close>, a prefix hook that writes a
  prefix and asks for the message to be suppressed, an abort hook that returns to the
  logger, and an environment and a process holding them.
\<close>

fun format_strings :: "string \<Rightarrow> arg list \<Rightarrow> string" where
  "format_strings [] args = []"
| "format_strings [c] args = [c]"
| "format_strings (c # d # rest) args =
     (if c = CHR ''%'' \<and> d = CHR ''s'' then
        (case args of
           ArgStr a # args' \<Rightarrow> a @ format_strings rest args'
         | _ \<Rightarrow> c # format_strings (d # rest) args)
      else c # format_strings (d # rest) args)"

definition suppressing_hook :: LogPrefixHook where
  "suppressing_hook sev file line buf_size = (False, ''[quiet] '')"

definition returning_abort_hook :: AbortHook where
  "returning_abort_hook file line buffer prefix_end = HookReturns"

definition sample_env :: environment where
  "sample_env =
     \<lparr>lib_config = \<lparr>NDEBUG = True, STRIP_LOG = None\<rparr>,
      prefix_hook_code = (\<lambda>h. suppressing_hook),
      abort_hook_code = (\<lambda>a. returning_abort_hook),
      vsnprintf = format_strings,
      kLogBufSize = 64,
      default_prefix = (\<lambda>sev file line. LogSeverityName sev @ '' '' @ file @ ''] RAW: ''),
      write_accepts = length,
      conflict_site = (''raw_logging.cc'', 0, ''conflicting hook registration'')\<rparr>"

definition hooked_process :: process where
  "hooked_process =
     \<lparr>log_prefix_hook = Some 1, abort_hook = Some 2, events = [], terminated = None\<rparr>"

definition strip_config :: build_config where
  "strip_config = \<lparr>NDEBUG = True, STRIP_LOG = Some 1\<rparr>"

section \<open>Properties of the severity model\<close>

lemmas severity_defs = kInfo_def kWarning_def kError_def kFatal_def

lemma word32_between_0_and_3:
  fixes s :: "32 word"
  assumes "\<not> s <s 0" and "\<not> 3 <s s"
  shows "s = 0 \<or> s = 1 \<or> s = 2 \<or> s = 3"
proof -
  from assms have "0 \<le> sint s" and "sint s \<le> 3"
    by (simp_all add: word_sless_alt)
  then have "sint s = 0 \<or> sint s = 1 \<or> sint s = 2 \<or> sint s = 3"
    by arith
  then have "sint s = sint (0 :: 32 word) \<or> sint s = sint (1 :: 32 word)
      \<or> sint s = sint (2 :: 32 word) \<or> sint s = sint (3 :: 32 word)"
    by simp
  then show ?thesis
    by (simp only: word_eq_iff_signed [symmetric])
qed

lemma NormalizeLogSeverity_range:
  "NormalizeLogSeverity s \<in> {kInfo, kWarning, kError, kFatal}"
  using word32_between_0_and_3 [of s]
  by (auto simp: NormalizeLogSeverity_def severity_defs)

lemma NormalizeLogSeverity_below: "s <s kInfo \<Longrightarrow> NormalizeLogSeverity s = kInfo"
  by (simp add: NormalizeLogSeverity_def)

lemma NormalizeLogSeverity_above: "kFatal <s s \<Longrightarrow> NormalizeLogSeverity s = kError"
  by (auto simp: NormalizeLogSeverity_def severity_defs word_sless_alt)

lemma NormalizeLogSeverity_canonical:
  "s \<in> {kInfo, kWarning, kError, kFatal} \<Longrightarrow> NormalizeLogSeverity s = s"
  by (auto simp: NormalizeLogSeverity_def severity_defs word_sless_alt)

lemma NormalizeLogSeverity_eq_kFatal: "NormalizeLogSeverity s = kFatal \<longleftrightarrow> s = kFatal"
  by (auto simp: NormalizeLogSeverity_def severity_defs word_sless_alt split: if_splits)

lemma kError_neq_kFatal: "kError \<noteq> kFatal"
  by (simp add: severity_defs)

text \<open>
  C2. For every \<^verbatim>\<open>int\<close> input \<open>s\<close>, \<^verbatim>\<open>NormalizeLogSeverity(s)\<close> is one of the four canonical
  values; every value below \<^verbatim>\<open>kInfo\<close> maps to \<^verbatim>\<open>kInfo\<close>; every value strictly above
  \<^verbatim>\<open>kFatal\<close> maps to \<^verbatim>\<open>kError\<close> and never to \<^verbatim>\<open>kFatal\<close>; in particular \<open>-1\<close> maps to
  \<^verbatim>\<open>kInfo\<close> and \<open>99\<close> to \<^verbatim>\<open>kError\<close>.
\<close>

theorem NormalizeLogSeverity_int_clamps:
  "NormalizeLogSeverity_int s \<in> {kInfo, kWarning, kError, kFatal}
   \<and> (s <s kInfo \<longrightarrow> NormalizeLogSeverity_int s = kInfo)
   \<and> (kFatal <s s \<longrightarrow>
        NormalizeLogSeverity_int s = kError \<and> NormalizeLogSeverity_int s \<noteq> kFatal)
   \<and> NormalizeLogSeverity_int (- 1) = kInfo
   \<and> NormalizeLogSeverity_int 99 = kError"
proof -
  have range: "NormalizeLogSeverity_int s \<in> {kInfo, kWarning, kError, kFatal}"
    unfolding NormalizeLogSeverity_int_def by (rule NormalizeLogSeverity_range)
  have below: "s <s kInfo \<longrightarrow> NormalizeLogSeverity_int s = kInfo"
    by (simp add: NormalizeLogSeverity_int_def static_cast_LogSeverity_def
        NormalizeLogSeverity_below)
  have above: "kFatal <s s \<longrightarrow>
      NormalizeLogSeverity_int s = kError \<and> NormalizeLogSeverity_int s \<noteq> kFatal"
    by (simp add: NormalizeLogSeverity_int_def static_cast_LogSeverity_def
        NormalizeLogSeverity_above kError_neq_kFatal)
  have minus_one: "NormalizeLogSeverity_int (- 1) = kInfo"
    by (simp add: NormalizeLogSeverity_int_def static_cast_LogSeverity_def
        NormalizeLogSeverity_def severity_defs word_sless_alt)
  have ninety_nine: "NormalizeLogSeverity_int 99 = kError"
    by (simp add: NormalizeLogSeverity_int_def static_cast_LogSeverity_def
        NormalizeLogSeverity_def severity_defs word_sless_alt)
  from range below above minus_one ninety_nine show ?thesis by blast
qed

theorem NormalizeLogSeverity_int_clamps_witness:
  "(- 5 :: 32 word) <s kInfo \<and> NormalizeLogSeverity_int (- 5) = kInfo
   \<and> kFatal <s (4 :: 32 word) \<and> NormalizeLogSeverity_int 4 = kError
   \<and> NormalizeLogSeverity_int 4 \<noteq> kFatal
   \<and> NormalizeLogSeverity_int 2147483647 = kError
   \<and> NormalizeLogSeverity_int (- 2147483648) = kInfo"
proof -
  have lo: "(- 5 :: 32 word) <s kInfo"
    by (simp add: severity_defs word_sless_alt)
  have hi: "kFatal <s (4 :: 32 word)"
    by (simp add: severity_defs word_sless_alt)
  have top: "kFatal <s (2147483647 :: 32 word)"
    by (simp add: severity_defs word_sless_alt)
  have bot: "(- 2147483648 :: 32 word) <s kInfo"
    by (simp add: severity_defs word_sless_alt)
  from lo hi top bot
    NormalizeLogSeverity_int_clamps [of "- 5"] NormalizeLogSeverity_int_clamps [of 4]
    NormalizeLogSeverity_int_clamps [of 2147483647]
    NormalizeLogSeverity_int_clamps [of "- 2147483648"]
  show ?thesis by blast
qed

text \<open>
  C8. \<^verbatim>\<open>LogSeverityName\<close> returns \<^verbatim>\<open>"INFO"\<close>, \<^verbatim>\<open>"WARNING"\<close>, \<^verbatim>\<open>"ERROR"\<close> and \<^verbatim>\<open>"FATAL"\<close> for the
  four enumerators and \<^verbatim>\<open>"UNKNOWN"\<close> for every other raw value, such as the value cast
  from 7; it returns one of these five strings on every input.
\<close>

theorem LogSeverityName_values:
  "LogSeverityName kInfo = ''INFO''
   \<and> LogSeverityName kWarning = ''WARNING''
   \<and> LogSeverityName kError = ''ERROR''
   \<and> LogSeverityName kFatal = ''FATAL''
   \<and> (s \<notin> {kInfo, kWarning, kError, kFatal} \<longrightarrow> LogSeverityName s = ''UNKNOWN'')
   \<and> LogSeverityName (static_cast_LogSeverity 7) = ''UNKNOWN''
   \<and> LogSeverityName s \<in> {''INFO'', ''WARNING'', ''ERROR'', ''FATAL'', ''UNKNOWN''}"
  by (simp add: LogSeverityName_def static_cast_LogSeverity_def severity_defs)

theorem LogSeverityName_values_witness:
  "(- 1 :: 32 word) \<notin> {kInfo, kWarning, kError, kFatal}
   \<and> LogSeverityName (- 1) = ''UNKNOWN''
   \<and> (4 :: 32 word) \<notin> {kInfo, kWarning, kError, kFatal}
   \<and> LogSeverityName 4 = ''UNKNOWN''"
proof -
  have a: "(- 1 :: 32 word) \<notin> {kInfo, kWarning, kError, kFatal}"
    by (simp add: severity_defs)
  have b: "(4 :: 32 word) \<notin> {kInfo, kWarning, kError, kFatal}"
    by (simp add: severity_defs)
  from a b LogSeverityName_values [of "- 1"] LogSeverityName_values [of 4]
  show ?thesis by blast
qed

text \<open>
  C10. \<^verbatim>\<open>NormalizeLogSeverity\<close> is idempotent, and it returns each of \<^verbatim>\<open>kInfo\<close>,
  \<^verbatim>\<open>kWarning\<close>, \<^verbatim>\<open>kError\<close> and \<^verbatim>\<open>kFatal\<close> unchanged.
\<close>

theorem NormalizeLogSeverity_idempotent:
  "NormalizeLogSeverity (NormalizeLogSeverity s) = NormalizeLogSeverity s
   \<and> NormalizeLogSeverity kInfo = kInfo
   \<and> NormalizeLogSeverity kWarning = kWarning
   \<and> NormalizeLogSeverity kError = kError
   \<and> NormalizeLogSeverity kFatal = kFatal"
proof -
  have "NormalizeLogSeverity (NormalizeLogSeverity s) = NormalizeLogSeverity s"
    by (rule NormalizeLogSeverity_canonical) (rule NormalizeLogSeverity_range)
  then show ?thesis
    by (simp add: NormalizeLogSeverity_canonical)
qed

section \<open>Properties of Basename\<close>

lemma char_at_in_range: "k < length fname \<Longrightarrow> char_at fname (int k) = Inr (fname ! k)"
  by (simp add: char_at_def)

lemma Basename_0: "Basename fname 0 = Inr fname"
  by (simp add: Basename.simps)

lemma Basename_Suc:
  assumes lt: "k < length fname"
  shows "Basename fname (1 + int k) =
     (if is_separator (fname ! k) then Inr (drop (Suc k) fname) else Basename fname (int k))"
proof -
  have n: "nat (1 + int k) = Suc k" by simp
  have z: "1 + int k \<noteq> 0" by simp
  have m: "1 + int k - 1 = int k" by simp
  show ?thesis
    by (subst Basename.simps) (simp only: z m n if_False char_at_in_range [OF lt] sum.case)
qed

text \<open>
  Called at an offset \<open>k\<close> inside the string, the search stops at the rightmost
  separator before \<open>k\<close>, or at 0 when there is none.
\<close>

lemma Basename_stops:
  "k \<le> length fname \<Longrightarrow>
   \<exists>j\<le>k. Basename fname (int k) = Inr (drop j fname)
        \<and> (j = 0 \<or> is_separator (fname ! (j - 1)))
        \<and> (\<forall>i. j \<le> i \<and> i < k \<longrightarrow> \<not> is_separator (fname ! i))"
proof (induction k)
  case 0
  then show ?case by (simp add: Basename_0)
next
  case (Suc k)
  then have lt: "k < length fname" by simp
  show ?case
  proof (cases "is_separator (fname ! k)")
    case True
    with lt have "Basename fname (int (Suc k)) = Inr (drop (Suc k) fname)"
      by (simp add: Basename_Suc)
    with True show ?thesis by (intro exI [of _ "Suc k"]) auto
  next
    case False
    from Suc.IH lt obtain j where j: "j \<le> k" "Basename fname (int k) = Inr (drop j fname)"
      "j = 0 \<or> is_separator (fname ! (j - 1))"
      "\<forall>i. j \<le> i \<and> i < k \<longrightarrow> \<not> is_separator (fname ! i)" by auto
    from False lt j(2) have "Basename fname (int (Suc k)) = Inr (drop j fname)"
      by (simp add: Basename_Suc)
    moreover have "\<forall>i. j \<le> i \<and> i < Suc k \<longrightarrow> \<not> is_separator (fname ! i)"
      using j(4) False by (auto simp: less_Suc_eq)
    ultimately show ?thesis using j(1,3) by (intro exI [of _ j]) simp
  qed
qed

lemma Basename_splits:
  "\<exists>pre suf. fname = pre @ suf \<and> Basename fname (int (length fname)) = Inr suf
      \<and> (\<forall>c\<in>set suf. \<not> is_separator c)
      \<and> (pre = [] \<or> is_separator (last pre))"
proof -
  from Basename_stops [of "length fname" fname]
  obtain j where j: "j \<le> length fname"
      "Basename fname (int (length fname)) = Inr (drop j fname)"
      "j = 0 \<or> is_separator (fname ! (j - 1))"
      "\<forall>i. j \<le> i \<and> i < length fname \<longrightarrow> \<not> is_separator (fname ! i)" by auto
  have a: "fname = take j fname @ drop j fname" by simp
  have b: "\<forall>c\<in>set (drop j fname). \<not> is_separator c"
  proof
    fix c assume "c \<in> set (drop j fname)"
    then obtain i where "i < length (drop j fname)" "c = drop j fname ! i"
      by (auto simp: in_set_conv_nth)
    then have "c = fname ! (j + i)" "j + i < length fname" using j(1) by auto
    with j(4) show "\<not> is_separator c" by auto
  qed
  have c: "take j fname = [] \<or> is_separator (last (take j fname))"
  proof (cases "j = 0")
    case True then show ?thesis by simp
  next
    case False
    with j(1) have "take j fname \<noteq> []" by auto
    then have "last (take j fname) = take j fname ! (length (take j fname) - 1)"
      by (rule last_conv_nth)
    also have "\<dots> = fname ! (j - 1)" using j(1) False by simp
    finally show ?thesis using j(3) False by simp
  qed
  from a j(2) b c show ?thesis by blast
qed

lemma Basename_no_separator:
  assumes "\<forall>c\<in>set fname. \<not> is_separator c"
  shows "Basename fname (int (length fname)) = Inr fname"
proof -
  from Basename_splits [of fname] obtain pre suf where
    s: "fname = pre @ suf" "Basename fname (int (length fname)) = Inr suf"
       "pre = [] \<or> is_separator (last pre)" by blast
  have "pre = []"
  proof (rule ccontr)
    assume ne: "pre \<noteq> []"
    with s(3) have "is_separator (last pre)" by simp
    moreover from ne s(1) have "last pre \<in> set fname"
      by (metis Un_iff last_in_set set_append)
    ultimately show False using assms by blast
  qed
  with s(1,2) show ?thesis by simp
qed

lemma Basename_full_defined: "\<exists>base. Basename FILE (int (length FILE)) = Inr base"
  using Basename_splits [of FILE] by blast

text \<open>
  C7. \<^verbatim>\<open>Basename(fname, n)\<close>, \<open>n\<close> the length of \<open>fname\<close>, returns the suffix of \<open>fname\<close>
  that begins just after the last \<^verbatim>\<open>'/'\<close> or backslash, and the whole string when it has no
  separator: \<open>fname\<close> splits into \<open>pre @ suf\<close> where \<open>suf\<close> is the result and holds no
  separator, and \<open>pre\<close> is empty or ends in a separator. In particular the base names of
  \<^verbatim>\<open>a/b/c.cc\<close>, of \<^verbatim>\<open>c.cc\<close> and of \<^verbatim>\<open>a\b\c.cc\<close> are \<^verbatim>\<open>c.cc\<close>, and that of the empty string is the
  empty string.
\<close>

theorem Basename_after_last_separator:
  "(\<exists>pre suf. fname = pre @ suf \<and> Basename fname (int (length fname)) = Inr suf
        \<and> (\<forall>c\<in>set suf. \<not> is_separator c)
        \<and> (pre = [] \<or> is_separator (last pre)))
   \<and> ((\<forall>c\<in>set fname. \<not> is_separator c) \<longrightarrow>
         Basename fname (int (length fname)) = Inr fname)
   \<and> Basename ''a/b/c.cc'' (int (length ''a/b/c.cc'')) = Inr ''c.cc''
   \<and> Basename ''c.cc'' (int (length ''c.cc'')) = Inr ''c.cc''
   \<and> Basename ([CHR ''a'', CHR 0x5C, CHR ''b'', CHR 0x5C] @ ''c.cc'')
        (int (length ([CHR ''a'', CHR 0x5C, CHR ''b'', CHR 0x5C] @ ''c.cc''))) = Inr ''c.cc''
   \<and> Basename '''' (int (length '''')) = Inr ''''"
proof -
  have e1: "Basename ''a/b/c.cc'' (int (length ''a/b/c.cc'')) = Inr ''c.cc''"
    by (simp add: Basename.simps char_at_def is_separator_def)
  have e2: "Basename ''c.cc'' (int (length ''c.cc'')) = Inr ''c.cc''"
    by (simp add: Basename.simps char_at_def is_separator_def)
  have e3: "Basename ([CHR ''a'', CHR 0x5C, CHR ''b'', CHR 0x5C] @ ''c.cc'')
      (int (length ([CHR ''a'', CHR 0x5C, CHR ''b'', CHR 0x5C] @ ''c.cc''))) = Inr ''c.cc''"
    by (simp add: Basename.simps char_at_def is_separator_def)
  have e4: "Basename '''' (int (length '''')) = Inr ''''"
    by (simp add: Basename.simps)
  from Basename_splits [of fname] Basename_no_separator [of fname] e1 e2 e3 e4
  show ?thesis by blast
qed

theorem Basename_after_last_separator_witness:
  "list_all (\<lambda>c. \<not> is_separator c) ''raw_logging.h''
   \<and> Basename ''raw_logging.h'' (int (length ''raw_logging.h'')) = Inr ''raw_logging.h''
   \<and> (\<exists>pre suf. ''base/x.h'' = pre @ suf
         \<and> Basename ''base/x.h'' (int (length ''base/x.h'')) = Inr suf
         \<and> (\<forall>c\<in>set suf. \<not> is_separator c)
         \<and> (pre = [] \<or> is_separator (last pre)))"
proof -
  have l: "list_all (\<lambda>c. \<not> is_separator c) ''raw_logging.h''"
    by (simp add: is_separator_def)
  then have h: "\<forall>c\<in>set ''raw_logging.h''. \<not> is_separator c"
    by (simp only: list_all_iff)
  from l h Basename_after_last_separator [of "''raw_logging.h''"]
    Basename_after_last_separator [of "''base/x.h''"]
  show ?thesis by blast
qed

lemma Basename_recursive_call:
  assumes "0 < offset" and "offset \<le> int (length fname)"
    and "\<not> is_separator (fname ! nat (offset - 1))"
  shows "Basename fname offset = Basename fname (offset - 1)"
proof -
  from assms(1,2) have rd: "char_at fname (offset - 1) = Inr (fname ! nat (offset - 1))"
    by (simp add: char_at_def)
  from assms(1) have nz: "offset \<noteq> 0" by simp
  show ?thesis
    by (subst Basename.simps) (simp add: rd nz assms(3))
qed

text \<open>
  C9. For every string \<open>fname\<close> and every offset with \<open>0 \<le> offset \<le> length fname\<close>,
  \<^verbatim>\<open>Basename\<close> returns: the recursion ends without reading outside the string, and the
  result starts at a position between 0 and the offset. A recursive call is made at
  \<open>offset - 1\<close>, which is smaller than the offset and not below 0, the base case.
\<close>

theorem Basename_terminates:
  assumes "0 \<le> offset" and "offset \<le> int (length fname)"
  shows "(\<exists>j. 0 \<le> j \<and> j \<le> offset \<and> Basename fname offset = Inr (drop (nat j) fname))
    \<and> (offset \<noteq> 0 \<and> \<not> is_separator (fname ! nat (offset - 1)) \<longrightarrow>
         Basename fname offset = Basename fname (offset - 1)
         \<and> 0 \<le> offset - 1 \<and> offset - 1 < offset)"
proof -
  from assms have k: "nat offset \<le> length fname" by simp
  from Basename_stops [OF k] assms(1)
  obtain j where "j \<le> nat offset" "Basename fname offset = Inr (drop j fname)"
    by auto
  with assms(1) have "0 \<le> int j \<and> int j \<le> offset
      \<and> Basename fname offset = Inr (drop (nat (int j)) fname)"
    by simp
  then have returns:
    "\<exists>j. 0 \<le> j \<and> j \<le> offset \<and> Basename fname offset = Inr (drop (nat j) fname)" ..
  have call: "offset \<noteq> 0 \<and> \<not> is_separator (fname ! nat (offset - 1)) \<longrightarrow>
         Basename fname offset = Basename fname (offset - 1)
         \<and> 0 \<le> offset - 1 \<and> offset - 1 < offset"
    using assms by (auto intro: Basename_recursive_call)
  from returns call show ?thesis ..
qed

theorem Basename_terminates_witness:
  "(0 :: int) \<le> 5 \<and> (5 :: int) \<le> int (length ''ab/cdef'')
   \<and> (\<exists>j. 0 \<le> j \<and> j \<le> 5 \<and> Basename ''ab/cdef'' 5 = Inr (drop (nat j) ''ab/cdef''))
   \<and> (5 :: int) \<noteq> 0 \<and> \<not> is_separator (''ab/cdef'' ! nat (5 - 1))
   \<and> Basename ''ab/cdef'' 5 = Basename ''ab/cdef'' (5 - 1)
   \<and> Basename ''ab/cdef'' 5 = Inr ''cdef''"
proof -
  have a: "(0 :: int) \<le> 5" by simp
  have b: "(5 :: int) \<le> int (length ''ab/cdef'')" by simp
  have c: "Basename ''ab/cdef'' 5 = Inr ''cdef''"
    by (simp add: Basename.simps char_at_def is_separator_def)
  have d: "(5 :: int) \<noteq> 0 \<and> \<not> is_separator (''ab/cdef'' ! nat (5 - 1))"
    by (simp add: is_separator_def)
  from a b c d Basename_terminates [OF a b] show ?thesis by blast
qed

section \<open>Properties of the raw logger and the hook registry\<close>

lemma terminated_record_event [simp]: "terminated (record_event e p) = terminated p"
  by (simp add: record_event_def)

lemma log_prefix_hook_record_event [simp]:
  "log_prefix_hook (record_event e p) = log_prefix_hook p"
  by (simp add: record_event_def)

lemma abort_hook_record_event [simp]: "abort_hook (record_event e p) = abort_hook p"
  by (simp add: record_event_def)

lemma terminated_fatal_exit: "terminated (fatal_exit env file line buffer prefix_end p) \<noteq> None"
  by (simp add: fatal_exit_def split: option.split hook_exit.split)

lemma fatal_exit_returning_hook:
  assumes "abort_hook p = Some a"
    and "abort_hook_code env a file line buffer prefix_end = HookReturns"
  shows "terminated (fatal_exit env file line buffer prefix_end p) = Some EndedByAbort"
  using assms by (simp add: fatal_exit_def)

lemma slots_fatal_exit:
  "log_prefix_hook (fatal_exit env file line buffer prefix_end p) = log_prefix_hook p
   \<and> abort_hook (fatal_exit env file line buffer prefix_end p) = abort_hook p"
  by (simp add: fatal_exit_def split: option.split hook_exit.split)

lemma call_prefix_hook_state:
  "terminated (snd (call_prefix_hook env sev file line p)) = terminated p
   \<and> log_prefix_hook (snd (call_prefix_hook env sev file line p)) = log_prefix_hook p
   \<and> abort_hook (snd (call_prefix_hook env sev file line p)) = abort_hook p"
  by (simp add: call_prefix_hook_def split: option.split)

lemma SafeWriteToStderr_state:
  "terminated (SafeWriteToStderr env s len p) = terminated p
   \<and> log_prefix_hook (SafeWriteToStderr env s len p) = log_prefix_hook p
   \<and> abort_hook (SafeWriteToStderr env s len p) = abort_hook p"
  by (simp add: SafeWriteToStderr_def)

text \<open>The logger at a severity that normalizes to Fatal: the write, then the exit.\<close>

lemma RawLog_fatal_unfold:
  assumes live: "terminated p = None" and fatal: "NormalizeLogSeverity severity = kFatal"
  shows "\<exists>buffer prefix_end q.
     RawLog env severity file line format args p = fatal_exit env file line buffer prefix_end q
     \<and> abort_hook q = abort_hook p \<and> log_prefix_hook q = log_prefix_hook p"
proof -
  let ?p1 = "record_event (RawLogCalled kFatal file line format args) p"
  obtain emit written p2 where c: "call_prefix_hook env kFatal file line ?p1 = ((emit, written), p2)"
    by (metis surj_pair)
  let ?prefix = "take (kLogBufSize env) written"
  let ?buffer = "?prefix @ take (kLogBufSize env - length ?prefix) (vsnprintf env format args)"
  let ?q = "SafeWriteToStderr env ?buffer (length ?buffer) p2"
  from live fatal c
  have "RawLog env severity file line format args p
      = fatal_exit env file line ?buffer (length ?prefix) ?q"
    by (simp add: RawLog_def Let_def)
  moreover from call_prefix_hook_state [of env kFatal "file" line ?p1] c
  have "abort_hook p2 = abort_hook p \<and> log_prefix_hook p2 = log_prefix_hook p"
    by simp
  then have "abort_hook ?q = abort_hook p \<and> log_prefix_hook ?q = log_prefix_hook p"
    by (simp add: SafeWriteToStderr_state)
  ultimately show ?thesis by blast
qed

lemma RawLog_fatal_terminated:
  assumes "NormalizeLogSeverity severity = kFatal"
  shows "terminated (RawLog env severity file line format args p) \<noteq> None"
proof (cases "terminated p = None")
  case True
  from RawLog_fatal_unfold [OF True assms, of env "file" line format args]
  obtain buffer prefix_end q where
    "RawLog env severity file line format args p = fatal_exit env file line buffer prefix_end q"
    by blast
  with terminated_fatal_exit [of env "file" line buffer prefix_end q]
  show ?thesis by simp
next
  case False
  then show ?thesis by (simp add: RawLog_def)
qed

lemma RawLog_fatal_returning_hook:
  assumes live: "terminated p = None" and fatal: "NormalizeLogSeverity severity = kFatal"
    and reg: "abort_hook p = Some a"
    and ret: "\<forall>f l b e. abort_hook_code env a f l b e = HookReturns"
  shows "terminated (RawLog env severity file line format args p) = Some EndedByAbort"
proof -
  from RawLog_fatal_unfold [OF live fatal, of env "file" line format args]
  obtain buffer prefix_end q where
    q: "RawLog env severity file line format args p = fatal_exit env file line buffer prefix_end q"
       "abort_hook q = abort_hook p" by blast
  from q(2) reg have "abort_hook q = Some a" by simp
  moreover from ret have "abort_hook_code env a file line buffer prefix_end = HookReturns"
    by simp
  ultimately show ?thesis using q(1) by (simp add: fatal_exit_returning_hook)
qed

text \<open>No call of the logger changes a registry slot.\<close>

lemma RawLog_slots:
  "log_prefix_hook (RawLog env severity file line format args p) = log_prefix_hook p
   \<and> abort_hook (RawLog env severity file line format args p) = abort_hook p"
proof (cases "terminated p = None")
  case False
  then show ?thesis by (simp add: RawLog_def)
next
  case True
  let ?sev = "NormalizeLogSeverity severity"
  let ?p1 = "record_event (RawLogCalled ?sev file line format args) p"
  obtain emit written p2 where c: "call_prefix_hook env ?sev file line ?p1 = ((emit, written), p2)"
    by (metis surj_pair)
  from call_prefix_hook_state [of env ?sev "file" line ?p1] c
  have p2: "log_prefix_hook p2 = log_prefix_hook p" "abort_hook p2 = abort_hook p"
    by simp_all
  from True c p2 show ?thesis
    by (simp add: RawLog_def Let_def slots_fatal_exit SafeWriteToStderr_state)
qed

text \<open>
  C1. Every call of the raw logger at a severity that is Fatal leaves the process
  terminated, whatever the registry holds and whatever the hooks return: also when a
  registered prefix hook asks for suppression, and when a registered abort hook returns
  normally, in which case the logger's own abort ends the process.
\<close>

theorem RawLog_fatal_always_terminates:
  assumes "NormalizeLogSeverity severity = kFatal"
  shows "terminated (RawLog env severity file line format args p) \<noteq> None
    \<and> (terminated p = None \<and> abort_hook p = Some a
         \<and> (\<forall>f l b e. abort_hook_code env a f l b e = HookReturns)
       \<longrightarrow> terminated (RawLog env severity file line format args p) = Some EndedByAbort)"
  using assms RawLog_fatal_terminated RawLog_fatal_returning_hook by blast

theorem RawLog_fatal_always_terminates_witness:
  "NormalizeLogSeverity kFatal = kFatal
   \<and> log_prefix_hook hooked_process = Some 1
   \<and> fst (prefix_hook_code sample_env 1 kFatal ''f.cc'' 10 (kLogBufSize sample_env)) = False
   \<and> terminated hooked_process = None \<and> abort_hook hooked_process = Some 2
   \<and> (\<forall>f l b e. abort_hook_code sample_env 2 f l b e = HookReturns)
   \<and> terminated (RawLog sample_env kFatal ''f.cc'' 10 ''boom %s'' [ArgStr ''x''] hooked_process)
       = Some EndedByAbort"
proof -
  have n: "NormalizeLogSeverity kFatal = kFatal"
    by (simp add: NormalizeLogSeverity_canonical)
  have h: "log_prefix_hook hooked_process = Some 1
      \<and> fst (prefix_hook_code sample_env 1 kFatal ''f.cc'' 10 (kLogBufSize sample_env)) = False
      \<and> terminated hooked_process = None \<and> abort_hook hooked_process = Some 2
      \<and> (\<forall>f l b e. abort_hook_code sample_env 2 f l b e = HookReturns)"
    by (simp add: hooked_process_def sample_env_def suppressing_hook_def
        returning_abort_hook_def)
  from n h RawLog_fatal_always_terminates
    [OF n, of sample_env "''f.cc''" 10 "''boom %s''" "[ArgStr ''x'']" hooked_process 2]
  show ?thesis by blast
qed

subsection \<open>Registration\<close>

lemma report_conflict_is_fatal_log:
  "\<exists>file line format. report_conflict env p = RawLog env kFatal file line format [] p"
  by (cases "conflict_site env") (auto simp: report_conflict_def)

lemma report_conflict_terminated: "terminated (report_conflict env p) \<noteq> None"
proof -
  from report_conflict_is_fatal_log [of env p] obtain f l fmt where
    "report_conflict env p = RawLog env kFatal f l fmt [] p" by blast
  moreover have "NormalizeLogSeverity kFatal = kFatal"
    by (simp add: NormalizeLogSeverity_canonical)
  ultimately show ?thesis
    using RawLog_fatal_terminated [of kFatal env f l fmt "[]" p] by simp
qed

lemma report_conflict_slots:
  "log_prefix_hook (report_conflict env p) = log_prefix_hook p
   \<and> abort_hook (report_conflict env p) = abort_hook p"
proof -
  from report_conflict_is_fatal_log [of env p] obtain f l fmt where
    "report_conflict env p = RawLog env kFatal f l fmt [] p" by blast
  then show ?thesis by (simp add: RawLog_slots)
qed

lemma RegisterLogPrefixHook_same:
  "log_prefix_hook p = Some fn \<Longrightarrow> RegisterLogPrefixHook env fn p = p"
  by (simp add: RegisterLogPrefixHook_def)

lemma RegisterAbortHook_same:
  "abort_hook p = Some fn \<Longrightarrow> RegisterAbortHook env fn p = p"
  by (simp add: RegisterAbortHook_def)

lemma RegisterLogPrefixHook_first:
  "terminated p = None \<Longrightarrow> log_prefix_hook p = None \<Longrightarrow>
   RegisterLogPrefixHook env fn p = p\<lparr>log_prefix_hook := Some fn\<rparr>"
  by (simp add: RegisterLogPrefixHook_def)

lemma RegisterAbortHook_first:
  "terminated p = None \<Longrightarrow> abort_hook p = None \<Longrightarrow>
   RegisterAbortHook env fn p = p\<lparr>abort_hook := Some fn\<rparr>"
  by (simp add: RegisterAbortHook_def)

lemma RegisterLogPrefixHook_conflict:
  assumes "terminated p = None" and "log_prefix_hook p = Some g" and "g \<noteq> fn"
  shows "(\<exists>file line format.
            RegisterLogPrefixHook env fn p = RawLog env kFatal file line format [] p)
         \<and> terminated (RegisterLogPrefixHook env fn p) \<noteq> None"
proof -
  from assms have "RegisterLogPrefixHook env fn p = report_conflict env p"
    by (simp add: RegisterLogPrefixHook_def)
  with report_conflict_is_fatal_log [of env p] report_conflict_terminated [of env p]
  show ?thesis by simp
qed

lemma RegisterAbortHook_conflict:
  assumes "terminated p = None" and "abort_hook p = Some g" and "g \<noteq> fn"
  shows "(\<exists>file line format.
            RegisterAbortHook env fn p = RawLog env kFatal file line format [] p)
         \<and> terminated (RegisterAbortHook env fn p) \<noteq> None"
proof -
  from assms have "RegisterAbortHook env fn p = report_conflict env p"
    by (simp add: RegisterAbortHook_def)
  with report_conflict_is_fatal_log [of env p] report_conflict_terminated [of env p]
  show ?thesis by simp
qed

text \<open>A slot that is set keeps its value through every call of the facility.\<close>

lemma RegisterLogPrefixHook_keeps:
  "log_prefix_hook p = Some g \<Longrightarrow> log_prefix_hook (RegisterLogPrefixHook env fn p) = Some g"
  "abort_hook (RegisterLogPrefixHook env fn p) = abort_hook p"
  by (simp_all add: RegisterLogPrefixHook_def report_conflict_slots split: option.split)

lemma RegisterAbortHook_keeps:
  "abort_hook p = Some g \<Longrightarrow> abort_hook (RegisterAbortHook env fn p) = Some g"
  "log_prefix_hook (RegisterAbortHook env fn p) = log_prefix_hook p"
  by (simp_all add: RegisterAbortHook_def report_conflict_slots split: option.split)

lemma step_keeps_prefix_hook:
  "log_prefix_hook p = Some g \<Longrightarrow> log_prefix_hook (step env x p) = Some g"
  by (cases x) (simp_all add: RegisterLogPrefixHook_keeps RegisterAbortHook_keeps RawLog_slots)

lemma step_keeps_abort_hook:
  "abort_hook p = Some g \<Longrightarrow> abort_hook (step env x p) = Some g"
  by (cases x) (simp_all add: RegisterLogPrefixHook_keeps RegisterAbortHook_keeps RawLog_slots)

lemma run_keeps_prefix_hook:
  "log_prefix_hook p = Some g \<Longrightarrow> log_prefix_hook (run env ops p) = Some g"
  by (induction ops arbitrary: p) (simp_all add: step_keeps_prefix_hook)

lemma run_keeps_abort_hook:
  "abort_hook p = Some g \<Longrightarrow> abort_hook (run env ops p) = Some g"
  by (induction ops arbitrary: p) (simp_all add: step_keeps_abort_hook)

text \<open>
  C3. For the prefix-hook slot and for the abort-hook slot: registering the value the
  slot already holds changes nothing; registering a different value for a slot that is
  set goes through the logger at Fatal severity and leaves the process terminated (the
  functions return no error value); a slot is set by the first registration and, once
  set, holds that value after every later sequence of calls.
\<close>

theorem hook_slot_set_once:
  "(log_prefix_hook p = Some f \<longrightarrow> RegisterLogPrefixHook env f p = p)
   \<and> (abort_hook p = Some f \<longrightarrow> RegisterAbortHook env f p = p)
   \<and> (terminated p = None \<and> log_prefix_hook p = Some g \<and> g \<noteq> f \<longrightarrow>
        (\<exists>file line format.
           RegisterLogPrefixHook env f p = RawLog env kFatal file line format [] p)
        \<and> terminated (RegisterLogPrefixHook env f p) \<noteq> None)
   \<and> (terminated p = None \<and> abort_hook p = Some g \<and> g \<noteq> f \<longrightarrow>
        (\<exists>file line format.
           RegisterAbortHook env f p = RawLog env kFatal file line format [] p)
        \<and> terminated (RegisterAbortHook env f p) \<noteq> None)
   \<and> (terminated p = None \<and> log_prefix_hook p = None \<longrightarrow>
        RegisterLogPrefixHook env f p = p\<lparr>log_prefix_hook := Some f\<rparr>)
   \<and> (terminated p = None \<and> abort_hook p = None \<longrightarrow>
        RegisterAbortHook env f p = p\<lparr>abort_hook := Some f\<rparr>)
   \<and> (log_prefix_hook p = Some g \<longrightarrow> log_prefix_hook (run env ops p) = Some g)
   \<and> (abort_hook p = Some g \<longrightarrow> abort_hook (run env ops p) = Some g)"
proof -
  have same: "(log_prefix_hook p = Some f \<longrightarrow> RegisterLogPrefixHook env f p = p)
      \<and> (abort_hook p = Some f \<longrightarrow> RegisterAbortHook env f p = p)"
    by (simp add: RegisterLogPrefixHook_same RegisterAbortHook_same)
  have first: "(terminated p = None \<and> log_prefix_hook p = None \<longrightarrow>
        RegisterLogPrefixHook env f p = p\<lparr>log_prefix_hook := Some f\<rparr>)
      \<and> (terminated p = None \<and> abort_hook p = None \<longrightarrow>
        RegisterAbortHook env f p = p\<lparr>abort_hook := Some f\<rparr>)"
    by (simp add: RegisterLogPrefixHook_first RegisterAbortHook_first)
  have keeps: "(log_prefix_hook p = Some g \<longrightarrow> log_prefix_hook (run env ops p) = Some g)
      \<and> (abort_hook p = Some g \<longrightarrow> abort_hook (run env ops p) = Some g)"
    by (simp add: run_keeps_prefix_hook run_keeps_abort_hook)
  from same first keeps
    RegisterLogPrefixHook_conflict [of p g f env] RegisterAbortHook_conflict [of p g f env]
  show ?thesis by blast
qed

theorem hook_slot_set_once_witness:
  "abort_hook hooked_process = Some 2
   \<and> RegisterAbortHook sample_env 2 hooked_process = hooked_process
   \<and> log_prefix_hook hooked_process = Some 1
   \<and> RegisterLogPrefixHook sample_env 1 hooked_process = hooked_process
   \<and> terminated hooked_process = None \<and> (2 :: nat) \<noteq> 3 \<and> (1 :: nat) \<noteq> 3
   \<and> terminated (RegisterAbortHook sample_env 3 hooked_process) \<noteq> None
   \<and> terminated (RegisterLogPrefixHook sample_env 3 hooked_process) \<noteq> None
   \<and> terminated initial_process = None \<and> abort_hook initial_process = None
   \<and> log_prefix_hook initial_process = None
   \<and> RegisterAbortHook sample_env 2 initial_process = initial_process\<lparr>abort_hook := Some 2\<rparr>
   \<and> RegisterLogPrefixHook sample_env 1 initial_process
        = initial_process\<lparr>log_prefix_hook := Some 1\<rparr>
   \<and> abort_hook (run sample_env [DoRegisterAbortHook 3, DoRegisterAbortHook 4] hooked_process)
        = Some 2
   \<and> log_prefix_hook
        (run sample_env [DoRegisterLogPrefixHook 3, DoRawLog kError ''f.cc'' 1 ''x'' []]
           hooked_process) = Some 1"
proof -
  have h: "abort_hook hooked_process = Some 2 \<and> log_prefix_hook hooked_process = Some 1
      \<and> terminated hooked_process = None \<and> (2 :: nat) \<noteq> 3 \<and> (1 :: nat) \<noteq> 3"
    by (simp add: hooked_process_def)
  have i: "terminated initial_process = None \<and> abort_hook initial_process = None
      \<and> log_prefix_hook initial_process = None"
    by (simp add: initial_process_def)
  have same_abort: "RegisterAbortHook sample_env 2 hooked_process = hooked_process"
    and keeps_abort:
      "abort_hook (run sample_env [DoRegisterAbortHook 3, DoRegisterAbortHook 4] hooked_process)
         = Some 2"
    using h hook_slot_set_once [of hooked_process 2 sample_env 2
      "[DoRegisterAbortHook 3, DoRegisterAbortHook 4]"]
    by blast+
  have same_prefix: "RegisterLogPrefixHook sample_env 1 hooked_process = hooked_process"
    and keeps_prefix:
      "log_prefix_hook
         (run sample_env [DoRegisterLogPrefixHook 3, DoRawLog kError ''f.cc'' 1 ''x'' []]
            hooked_process) = Some 1"
    using h hook_slot_set_once [of hooked_process 1 sample_env 1
      "[DoRegisterLogPrefixHook 3, DoRawLog kError ''f.cc'' 1 ''x'' []]"]
    by blast+
  have conflict_abort: "terminated (RegisterAbortHook sample_env 3 hooked_process) \<noteq> None"
    using h hook_slot_set_once [of hooked_process 3 sample_env 2 "[]"] by blast
  have conflict_prefix:
    "terminated (RegisterLogPrefixHook sample_env 3 hooked_process) \<noteq> None"
    using h hook_slot_set_once [of hooked_process 3 sample_env 1 "[]"] by blast
  have first_abort:
    "RegisterAbortHook sample_env 2 initial_process = initial_process\<lparr>abort_hook := Some 2\<rparr>"
    using i hook_slot_set_once [of initial_process 2 sample_env 0 "[]"] by blast
  have first_prefix:
    "RegisterLogPrefixHook sample_env 1 initial_process
       = initial_process\<lparr>log_prefix_hook := Some 1\<rparr>"
    using i hook_slot_set_once [of initial_process 1 sample_env 0 "[]"] by blast
  from h i same_abort same_prefix conflict_abort conflict_prefix first_abort first_prefix
    keeps_abort keeps_prefix
  show ?thesis by simp
qed

subsection \<open>The macros\<close>

lemma kLogDebugFatal_canonical: "NormalizeLogSeverity (kLogDebugFatal lib) = kLogDebugFatal lib"
  by (simp add: kLogDebugFatal_def NormalizeLogSeverity_canonical)

lemma DFATAL_resolves:
  "XBSL_RAW_LOGGING_INTERNAL env DFATAL
     = XBSL_RAW_LOGGING_INTERNAL env (if NDEBUG (lib_config env) then ERROR else FATAL)"
  by (simp add: kLogDebugFatal_def)

lemma XBSL_RAW_LOG_cong_severity:
  assumes e: "XBSL_RAW_LOGGING_INTERNAL env s = XBSL_RAW_LOGGING_INTERNAL env t"
  shows "XBSL_RAW_LOG env cfg s FILE LINE format args p
     = XBSL_RAW_LOG env cfg t FILE LINE format args p"
  by (simp only: XBSL_RAW_LOG_def e)

text \<open>
  C4. \<^verbatim>\<open>kLogDebugFatal\<close> is \<^verbatim>\<open>kFatal\<close> when the translation unit that defines it is built
  without \<^verbatim>\<open>NDEBUG\<close> and \<^verbatim>\<open>kError\<close> otherwise. It is that one constant which the \<^verbatim>\<open>DFATAL\<close>
  token names in every translation unit, whatever that unit's own configuration, and in
  every state of the process.
\<close>

theorem kLogDebugFatal_by_build_mode:
  "(\<not> NDEBUG lib \<longrightarrow> kLogDebugFatal lib = kFatal)
   \<and> (NDEBUG lib \<longrightarrow> kLogDebugFatal lib = kError)
   \<and> XBSL_RAW_LOGGING_INTERNAL env DFATAL = kLogDebugFatal (lib_config env)
   \<and> XBSL_RAW_LOG env cfg DFATAL FILE LINE format args p
       = XBSL_RAW_LOG env cfg (if NDEBUG (lib_config env) then ERROR else FATAL)
           FILE LINE format args p"
proof -
  have "XBSL_RAW_LOG env cfg DFATAL FILE LINE format args p
       = XBSL_RAW_LOG env cfg (if NDEBUG (lib_config env) then ERROR else FATAL)
           FILE LINE format args p"
    by (rule XBSL_RAW_LOG_cong_severity) (rule DFATAL_resolves)
  then show ?thesis by (simp add: kLogDebugFatal_def)
qed

theorem kLogDebugFatal_by_build_mode_witness:
  "\<not> NDEBUG \<lparr>NDEBUG = False, STRIP_LOG = None\<rparr>
   \<and> kLogDebugFatal \<lparr>NDEBUG = False, STRIP_LOG = None\<rparr> = kFatal
   \<and> NDEBUG \<lparr>NDEBUG = True, STRIP_LOG = None\<rparr>
   \<and> kLogDebugFatal \<lparr>NDEBUG = True, STRIP_LOG = None\<rparr> = kError"
proof -
  have a: "\<not> NDEBUG \<lparr>NDEBUG = False, STRIP_LOG = None\<rparr>" by simp
  have b: "NDEBUG \<lparr>NDEBUG = True, STRIP_LOG = None\<rparr>" by simp
  from a b
    kLogDebugFatal_by_build_mode [of "\<lparr>NDEBUG = False, STRIP_LOG = None\<rparr>"]
    kLogDebugFatal_by_build_mode [of "\<lparr>NDEBUG = True, STRIP_LOG = None\<rparr>"]
  show ?thesis by blast
qed

lemma XBSL_RAW_LOG_FATAL:
  assumes "Basename FILE (int (length FILE)) = Inr base"
  shows "XBSL_RAW_LOG env cfg FATAL FILE LINE format args p
     = Inr (RawLog env kFatal base LINE format args p)"
  using assms by (simp add: XBSL_RAW_LOG_def)

lemma XBSL_RAW_LOG_stripped:
  assumes "Basename FILE (int (length FILE)) = Inr base"
    and "STRIP_LOG cfg \<noteq> None" and "STRIP_LOG cfg \<noteq> Some 0"
  shows "XBSL_RAW_LOG env cfg severity FILE LINE format args p
     = (if XBSL_RAW_LOGGING_INTERNAL env severity = kFatal
        then Inr (RawLog env kFatal base LINE format args p) else Inr p)"
  using assms by (auto simp: XBSL_RAW_LOG_def)

lemma RawLog_kFatal_terminated:
  "terminated (RawLog env kFatal file line format args p) \<noteq> None"
  by (rule RawLog_fatal_terminated) (simp add: NormalizeLogSeverity_canonical)

text \<open>
  C5. \<^verbatim>\<open>XBSL_RAW_CHECK\<close> takes a condition and one message. When the condition is true the
  process is left exactly as it was, whatever the message. When it is false the macro
  is the call of the logger at \<^verbatim>\<open>kFatal\<close> with the format \<^verbatim>\<open>"Check %s failed: %s"\<close>, the
  text of the condition and the message, and the process is terminated. For a running
  process the state changes if and only if the condition is false.
\<close>

theorem XBSL_RAW_CHECK_fatal_iff_false:
  "\<exists>base. Basename FILE (int (length FILE)) = Inr base
     \<and> (condition \<longrightarrow>
          XBSL_RAW_CHECK env cfg condition condition_text message FILE LINE p = Inr p)
     \<and> (\<not> condition \<longrightarrow>
          XBSL_RAW_CHECK env cfg condition condition_text message FILE LINE p
            = Inr (RawLog env kFatal base LINE ''Check %s failed: %s''
                    [ArgStr condition_text, ArgStr message] p)
          \<and> terminated (RawLog env kFatal base LINE ''Check %s failed: %s''
                          [ArgStr condition_text, ArgStr message] p) \<noteq> None)
     \<and> (terminated p = None \<longrightarrow>
          (XBSL_RAW_CHECK env cfg condition condition_text message FILE LINE p \<noteq> Inr p)
            = (\<not> condition))"
proof -
  from Basename_full_defined [of FILE] obtain base where
    b: "Basename FILE (int (length FILE)) = Inr base" ..
  define q where "q = RawLog env kFatal base LINE ''Check %s failed: %s''
              [ArgStr condition_text, ArgStr message] p"
  define chk where
    "chk = XBSL_RAW_CHECK env cfg condition condition_text message FILE LINE p"
  have t: "terminated q \<noteq> None"
    unfolding q_def by (rule RawLog_kFatal_terminated)
  have pass: "condition \<longrightarrow> chk = Inr p"
    unfolding chk_def by (simp add: XBSL_RAW_CHECK_def XBSL_PREDICT_FALSE_def)
  have "XBSL_RAW_LOG env cfg FATAL FILE LINE ''Check %s failed: %s''
          [ArgStr condition_text, ArgStr message] p = Inr q"
    unfolding q_def by (rule XBSL_RAW_LOG_FATAL [OF b])
  then have fail: "\<not> condition \<longrightarrow> chk = Inr q"
    unfolding chk_def XBSL_RAW_CHECK_def XBSL_PREDICT_FALSE_def by simp
  have iff: "terminated p = None \<longrightarrow> (chk \<noteq> Inr p) = (\<not> condition)"
  proof
    assume live: "terminated p = None"
    with t have "q \<noteq> p" by auto
    with pass fail show "(chk \<noteq> Inr p) = (\<not> condition)"
      by (cases condition) simp_all
  qed
  from b pass fail t iff
  have all: "Basename FILE (int (length FILE)) = Inr base
     \<and> (condition \<longrightarrow> chk = Inr p)
     \<and> (\<not> condition \<longrightarrow> chk = Inr q \<and> terminated q \<noteq> None)
     \<and> (terminated p = None \<longrightarrow> (chk \<noteq> Inr p) = (\<not> condition))"
    by blast
  show ?thesis
    by (rule exI [where x = base]) (insert all, unfold chk_def q_def, assumption)
qed

theorem XBSL_RAW_CHECK_fatal_iff_false_witness:
  "XBSL_RAW_CHECK sample_env strip_config True ''x > 0'' ''must be positive''
       ''src/a/f.cc'' 10 hooked_process = Inr hooked_process
   \<and> XBSL_RAW_CHECK sample_env strip_config False ''x > 0'' ''must be positive''
       ''src/a/f.cc'' 10 hooked_process
     = Inr (RawLog sample_env kFatal ''f.cc'' 10 ''Check %s failed: %s''
              [ArgStr ''x > 0'', ArgStr ''must be positive''] hooked_process)
   \<and> terminated (RawLog sample_env kFatal ''f.cc'' 10 ''Check %s failed: %s''
              [ArgStr ''x > 0'', ArgStr ''must be positive''] hooked_process) \<noteq> None
   \<and> terminated hooked_process = None
   \<and> XBSL_RAW_CHECK sample_env strip_config False ''x > 0'' ''must be positive''
       ''src/a/f.cc'' 10 hooked_process \<noteq> Inr hooked_process"
proof -
  have b: "Basename ''src/a/f.cc'' (int (length ''src/a/f.cc'')) = Inr ''f.cc''"
    by (simp add: Basename.simps char_at_def is_separator_def)
  have live: "terminated hooked_process = None"
    by (simp add: hooked_process_def)
  from XBSL_RAW_CHECK_fatal_iff_false
    [of "''src/a/f.cc''" True sample_env strip_config "''x > 0''" "''must be positive''" 10
      hooked_process]
  obtain base' where "True \<longrightarrow>
      XBSL_RAW_CHECK sample_env strip_config True ''x > 0'' ''must be positive''
        ''src/a/f.cc'' 10 hooked_process = Inr hooked_process"
    by (elim exE conjE) (rule that; assumption)
  then have pass: "XBSL_RAW_CHECK sample_env strip_config True ''x > 0'' ''must be positive''
       ''src/a/f.cc'' 10 hooked_process = Inr hooked_process"
    by (rule mp) (rule TrueI)
  from XBSL_RAW_CHECK_fatal_iff_false
    [of "''src/a/f.cc''" False sample_env strip_config "''x > 0''" "''must be positive''" 10
      hooked_process]
  obtain base where
    w1: "Basename ''src/a/f.cc'' (int (length ''src/a/f.cc'')) = Inr base"
    and w2: "\<not> False \<longrightarrow>
      XBSL_RAW_CHECK sample_env strip_config False ''x > 0'' ''must be positive''
        ''src/a/f.cc'' 10 hooked_process
      = Inr (RawLog sample_env kFatal base 10 ''Check %s failed: %s''
              [ArgStr ''x > 0'', ArgStr ''must be positive''] hooked_process)
      \<and> terminated (RawLog sample_env kFatal base 10 ''Check %s failed: %s''
              [ArgStr ''x > 0'', ArgStr ''must be positive''] hooked_process) \<noteq> None"
    and w3: "terminated hooked_process = None \<longrightarrow>
      (XBSL_RAW_CHECK sample_env strip_config False ''x > 0'' ''must be positive''
        ''src/a/f.cc'' 10 hooked_process \<noteq> Inr hooked_process) = (\<not> False)"
    by (elim exE conjE) (rule that; assumption)
  from w1 have base: "base = ''f.cc''"
    unfolding b by (rule Inr_inject [THEN sym])
  have nf: "\<not> False" by (rule notI)
  from mp [OF w2 nf] have fail:
    "XBSL_RAW_CHECK sample_env strip_config False ''x > 0'' ''must be positive''
        ''src/a/f.cc'' 10 hooked_process
      = Inr (RawLog sample_env kFatal ''f.cc'' 10 ''Check %s failed: %s''
              [ArgStr ''x > 0'', ArgStr ''must be positive''] hooked_process)
      \<and> terminated (RawLog sample_env kFatal ''f.cc'' 10 ''Check %s failed: %s''
              [ArgStr ''x > 0'', ArgStr ''must be positive''] hooked_process) \<noteq> None"
    unfolding base .
  from mp [OF w3 live] nf have changed:
    "XBSL_RAW_CHECK sample_env strip_config False ''x > 0'' ''must be positive''
       ''src/a/f.cc'' 10 hooked_process \<noteq> Inr hooked_process"
    by (rule iffD2)
  from pass fail live changed show ?thesis by simp
qed

text \<open>
  C6. With \<^verbatim>\<open>STRIP_LOG\<close> defined and not 0, \<^verbatim>\<open>XBSL_RAW_LOG\<close> at a severity other than
  \<^verbatim>\<open>kFatal\<close> leaves the process as it was (no call of the logger), and at a severity that
  resolves to \<^verbatim>\<open>kFatal\<close> it is the call of the logger at \<^verbatim>\<open>kFatal\<close>. In every build
  configuration \<^verbatim>\<open>XBSL_RAW_LOG(FATAL, ...)\<close> is that call, and it terminates the process.
\<close>

theorem XBSL_RAW_LOG_strip_keeps_fatal:
  "\<exists>base. Basename FILE (int (length FILE)) = Inr base
     \<and> (STRIP_LOG cfg \<noteq> None \<and> STRIP_LOG cfg \<noteq> Some 0 \<longrightarrow>
          (XBSL_RAW_LOGGING_INTERNAL env severity \<noteq> kFatal \<longrightarrow>
             XBSL_RAW_LOG env cfg severity FILE LINE format args p = Inr p)
          \<and> (XBSL_RAW_LOGGING_INTERNAL env severity = kFatal \<longrightarrow>
             XBSL_RAW_LOG env cfg severity FILE LINE format args p
               = Inr (RawLog env kFatal base LINE format args p)))
     \<and> XBSL_RAW_LOG env cfg FATAL FILE LINE format args p
          = Inr (RawLog env kFatal base LINE format args p)
     \<and> terminated (RawLog env kFatal base LINE format args p) \<noteq> None"
proof -
  from Basename_full_defined [of FILE] obtain base where
    b: "Basename FILE (int (length FILE)) = Inr base" ..
  have strip: "STRIP_LOG cfg \<noteq> None \<and> STRIP_LOG cfg \<noteq> Some 0 \<longrightarrow>
          (XBSL_RAW_LOGGING_INTERNAL env severity \<noteq> kFatal \<longrightarrow>
             XBSL_RAW_LOG env cfg severity FILE LINE format args p = Inr p)
          \<and> (XBSL_RAW_LOGGING_INTERNAL env severity = kFatal \<longrightarrow>
             XBSL_RAW_LOG env cfg severity FILE LINE format args p
               = Inr (RawLog env kFatal base LINE format args p))"
    by (simp add: XBSL_RAW_LOG_stripped [OF b])
  have fatal: "XBSL_RAW_LOG env cfg FATAL FILE LINE format args p
          = Inr (RawLog env kFatal base LINE format args p)"
    by (rule XBSL_RAW_LOG_FATAL [OF b])
  have t: "terminated (RawLog env kFatal base LINE format args p) \<noteq> None"
    by (rule RawLog_kFatal_terminated)
  show ?thesis
    by (rule exI [where x = base]) (intro conjI b strip fatal t)
qed

theorem XBSL_RAW_LOG_strip_keeps_fatal_witness:
  "STRIP_LOG strip_config \<noteq> None \<and> STRIP_LOG strip_config \<noteq> Some 0
   \<and> XBSL_RAW_LOGGING_INTERNAL sample_env ERROR \<noteq> kFatal
   \<and> XBSL_RAW_LOG sample_env strip_config ERROR ''src/a/f.cc'' 10 ''hello'' [] hooked_process
       = Inr hooked_process
   \<and> XBSL_RAW_LOGGING_INTERNAL sample_env DFATAL \<noteq> kFatal
   \<and> XBSL_RAW_LOG sample_env strip_config DFATAL ''src/a/f.cc'' 10 ''hello'' [] hooked_process
       = Inr hooked_process
   \<and> XBSL_RAW_LOGGING_INTERNAL sample_env (LEVEL 3) = kFatal
   \<and> XBSL_RAW_LOG sample_env strip_config (LEVEL 3) ''src/a/f.cc'' 10 ''hello'' []
       hooked_process
       = Inr (RawLog sample_env kFatal ''f.cc'' 10 ''hello'' [] hooked_process)
   \<and> terminated (RawLog sample_env kFatal ''f.cc'' 10 ''hello'' [] hooked_process) \<noteq> None"
proof -
  have b: "Basename ''src/a/f.cc'' (int (length ''src/a/f.cc'')) = Inr ''f.cc''"
    by (simp add: Basename.simps char_at_def is_separator_def)
  have s: "STRIP_LOG strip_config \<noteq> None \<and> STRIP_LOG strip_config \<noteq> Some 0"
    by (simp add: strip_config_def)
  have e: "XBSL_RAW_LOGGING_INTERNAL sample_env ERROR \<noteq> kFatal"
    by (simp add: severity_defs)
  have d: "XBSL_RAW_LOGGING_INTERNAL sample_env DFATAL \<noteq> kFatal"
    by (simp add: severity_defs kLogDebugFatal_def sample_env_def)
  have l: "XBSL_RAW_LOGGING_INTERNAL sample_env (LEVEL 3) = kFatal"
    by (simp add: severity_defs NormalizeLogSeverity_int_def static_cast_LogSeverity_def
        NormalizeLogSeverity_def word_sless_alt)
  from XBSL_RAW_LOG_strip_keeps_fatal
    [of "''src/a/f.cc''" strip_config sample_env ERROR 10 "''hello''" "[]" hooked_process]
  obtain base1 where "STRIP_LOG strip_config \<noteq> None \<and> STRIP_LOG strip_config \<noteq> Some 0 \<longrightarrow>
      (XBSL_RAW_LOGGING_INTERNAL sample_env ERROR \<noteq> kFatal \<longrightarrow>
         XBSL_RAW_LOG sample_env strip_config ERROR ''src/a/f.cc'' 10 ''hello'' []
           hooked_process = Inr hooked_process)
      \<and> (XBSL_RAW_LOGGING_INTERNAL sample_env ERROR = kFatal \<longrightarrow>
         XBSL_RAW_LOG sample_env strip_config ERROR ''src/a/f.cc'' 10 ''hello'' []
           hooked_process
         = Inr (RawLog sample_env kFatal base1 10 ''hello'' [] hooked_process))"
    by (elim exE conjE) (rule that; assumption)
  from mp [OF this s] e have r1:
    "XBSL_RAW_LOG sample_env strip_config ERROR ''src/a/f.cc'' 10 ''hello'' []
      hooked_process = Inr hooked_process"
    by (elim conjE) (erule mp)
  from XBSL_RAW_LOG_strip_keeps_fatal
    [of "''src/a/f.cc''" strip_config sample_env DFATAL 10 "''hello''" "[]" hooked_process]
  obtain base2 where "STRIP_LOG strip_config \<noteq> None \<and> STRIP_LOG strip_config \<noteq> Some 0 \<longrightarrow>
      (XBSL_RAW_LOGGING_INTERNAL sample_env DFATAL \<noteq> kFatal \<longrightarrow>
         XBSL_RAW_LOG sample_env strip_config DFATAL ''src/a/f.cc'' 10 ''hello'' []
           hooked_process = Inr hooked_process)
      \<and> (XBSL_RAW_LOGGING_INTERNAL sample_env DFATAL = kFatal \<longrightarrow>
         XBSL_RAW_LOG sample_env strip_config DFATAL ''src/a/f.cc'' 10 ''hello'' []
           hooked_process
         = Inr (RawLog sample_env kFatal base2 10 ''hello'' [] hooked_process))"
    by (elim exE conjE) (rule that; assumption)
  from mp [OF this s] d have r2:
    "XBSL_RAW_LOG sample_env strip_config DFATAL ''src/a/f.cc'' 10 ''hello'' []
      hooked_process = Inr hooked_process"
    by (elim conjE) (erule mp)
  from XBSL_RAW_LOG_strip_keeps_fatal
    [of "''src/a/f.cc''" strip_config sample_env "LEVEL 3" 10 "''hello''" "[]" hooked_process]
  obtain base where
    w1: "Basename ''src/a/f.cc'' (int (length ''src/a/f.cc'')) = Inr base"
    and w2: "STRIP_LOG strip_config \<noteq> None \<and> STRIP_LOG strip_config \<noteq> Some 0 \<longrightarrow>
      (XBSL_RAW_LOGGING_INTERNAL sample_env (LEVEL 3) \<noteq> kFatal \<longrightarrow>
         XBSL_RAW_LOG sample_env strip_config (LEVEL 3) ''src/a/f.cc'' 10 ''hello'' []
           hooked_process = Inr hooked_process)
      \<and> (XBSL_RAW_LOGGING_INTERNAL sample_env (LEVEL 3) = kFatal \<longrightarrow>
         XBSL_RAW_LOG sample_env strip_config (LEVEL 3) ''src/a/f.cc'' 10 ''hello'' []
           hooked_process
         = Inr (RawLog sample_env kFatal base 10 ''hello'' [] hooked_process))"
    and w3: "terminated (RawLog sample_env kFatal base 10 ''hello'' [] hooked_process) \<noteq> None"
    by (elim exE conjE) (rule that; assumption)
  from w1 have base: "base = ''f.cc''"
    unfolding b by (rule Inr_inject [THEN sym])
  from mp [OF w2 s] l have r3:
    "XBSL_RAW_LOG sample_env strip_config (LEVEL 3) ''src/a/f.cc'' 10 ''hello'' []
      hooked_process = Inr (RawLog sample_env kFatal base 10 ''hello'' [] hooked_process)"
    by (elim conjE) (erule mp)
  from s e d l r1 r2 r3 [unfolded base] w3 [unfolded base]
  show ?thesis by simp
qed

end
